theory Spec2Isabelle
  imports Complex_Main "HOL-Library.Log_Nat"
begin

section \<open>The PDF viewer component\<close>

text \<open>
  The component \<open>PDFJSViewer\<close> exists in two variants: the basic one (\<open>src/App.tsx\<close>) and the
  extended one, which adds loading from a URL and a text layer. Both keep their state in React
  \<open>useState\<close> cells and change it in event handlers. The model makes each handler a function
  from the state before to the state after. An \<open>async\<close> handler is cut at its \<open>await\<close>: the
  part up to the call into the library is one function, the continuation that runs when the
  promise settles is another one, which takes the outcome of the promise as an argument. All
  \<open>set...\<close> calls of one continuation are applied together (React commits them in one batch).

  A handler is a closure of the render that created it. What it reads from a state cell
  (\<open>pageNum\<close>, \<open>totalPages\<close>, \<open>isLoadingUrl\<close> in a guard) is the value that render saw, while a
  functional update (\<open>setPageNum(prev => prev + 1)\<close>) works on the value of the cell as it is
  now. The two differ from the moment a setter has run until React has rendered again, so the
  model keeps both: the cells, and the values of the latest render.
\<close>

subsection \<open>JavaScript numbers\<close>

text \<open>
  Page numbers, page counts and rotation angles are small integers, which a JavaScript number
  holds exactly: they are modelled as \<open>int\<close>. The scale is a proper binary64 value: it is
  modelled by the rational number it denotes, and \<open>+\<close> and \<open>-\<close> round their exact result to the
  nearest binary64 value, ties to even (\<open>binary64\<close>). The exponent range is not bounded in the
  model, which is exact for every magnitude between \<open>2\<^sup>-\<^sup>1\<^sup>0\<^sup>2\<^sup>2\<close> and \<open>2\<^sup>1\<^sup>0\<^sup>2\<^sup>4\<close>; the scale and
  the sums formed from it stay between \<open>0.05\<close> and \<open>3.2\<close>.
\<close>

type_synonym number = rat

definition expo :: "rat \<Rightarrow> int" where
  \<comment> \<open>the binary exponent \<open>\<lfloor>log\<^sub>2 \<bar>x\<bar>\<rfloor>\<close> of a non-zero rational\<close>
  "expo x = (let (p, q) = quotient_of \<bar>x\<bar>; d = bitlen p - bitlen q
             in if 2 powi d \<le> \<bar>x\<bar> then d else d - 1)"

definition round_even :: "rat \<Rightarrow> int" where
  \<comment> \<open>the nearest integer, the even one of the two when they are equally near\<close>
  "round_even q = (let f = \<lfloor>q\<rfloor>; d = q - of_int f
                   in if d < 1 / 2 then f else if 1 / 2 < d then f + 1
                      else if even f then f else f + 1)"

definition binary64 :: "rat \<Rightarrow> number" where
  \<comment> \<open>rounding to 53 significant bits\<close>
  "binary64 x = (if x = 0 then 0
                 else let g = 2 powi (expo x - 52) in of_int (round_even (x / g)) * g)"

definition js_add :: "number \<Rightarrow> number \<Rightarrow> number" where
  "js_add x y = binary64 (x + y)"

definition js_sub :: "number \<Rightarrow> number \<Rightarrow> number" where
  "js_sub x y = binary64 (x - y)"

definition js_rem :: "int \<Rightarrow> int \<Rightarrow> int" where
  \<comment> \<open>the operator \<open>%\<close> on integers: the result has the sign of the dividend\<close>
  "js_rem a b = sgn a * (\<bar>a\<bar> mod \<bar>b\<bar>)"

definition Math_min :: "number \<Rightarrow> number \<Rightarrow> number" where
  "Math_min x y = (if x \<le> y then x else y)"

definition Math_max :: "number \<Rightarrow> number \<Rightarrow> number" where
  "Math_max x y = (if y \<le> x then x else y)"

subsection \<open>The rendering library and the page\<close>

text \<open>
  What the library hands out is data of the model. A thrown value is either an \<open>Error\<close>
  object with its name and message or any other value, of which only \<open>String(value)\<close> is used.
  A promise that rejects is \<open>Inl\<close> of the thrown value.
\<close>

datatype thrown = Error (name: string) (message: string) | Other (to_string: string)

record PageViewport =
  width :: number
  height :: number

type_synonym TextContent = "string list"

record PDFPageProxy =
  getViewport :: "number \<Rightarrow> int \<Rightarrow> PageViewport"
  render :: "thrown option"
  getTextContent :: "thrown + TextContent"

record PDFDocumentProxy =
  numPages :: int
  getPage :: "int \<Rightarrow> thrown + PDFPageProxy"

record HTMLCanvasElement =
  canvas_width :: number
  canvas_height :: number
  getContext :: bool
  painted :: "PageViewport option"

record HTMLDivElement =
  style_width :: number
  style_height :: number
  innerHTML :: "string list"

record File =
  file_type :: string
  file_bytes :: "nat list"

subsection \<open>The state\<close>

text \<open>
  \<open>view_state\<close> holds the \<open>useState\<close> cells (the last two exist in the extended variant only and
  are never written by the basic one). \<open>app\<close> adds what the handlers reach through refs and
  globals: the value of the file input (\<open>None\<close> when \<open>fileInputRef.current\<close> is null), the
  canvas and the text layer container (\<open>None\<close> when not mounted), the \<open>alert\<close> and
  \<open>console.error\<close> messages so far, the URLs passed to \<open>getDocument\<close>, the number of those
  calls whose promise has not settled yet, and the values that the latest render saw in the
  cells which a guard reads (\<open>rendered\<close>): they are what the handlers now in the page have
  closed over.
\<close>

record view_state =
  pdfDoc :: "PDFDocumentProxy option"
  pageNum :: int
  totalPages :: int
  scale :: number
  rotation :: int
  isLoadingUrl :: bool
  urlError :: "string option"

record closure =
  pageNum_seen :: int
  totalPages_seen :: int
  isLoadingUrl_seen :: bool

record app = view_state +
  fileInput :: "string option"
  canvas :: "HTMLCanvasElement option"
  textLayer :: "HTMLDivElement option"
  alerts :: "string list"
  console :: "string list"
  url_calls :: "string list"
  url_pending :: nat
  rendered :: closure

definition initial :: app where
  "initial = \<lparr> pdfDoc = None, pageNum = 1, totalPages = 0, scale = 1, rotation = 0,
      isLoadingUrl = False, urlError = None,
      fileInput = Some [], canvas = None, textLayer = None,
      alerts = [], console = [], url_calls = [], url_pending = 0,
      rendered = \<lparr> pageNum_seen = 1, totalPages_seen = 0, isLoadingUrl_seen = False \<rparr> \<rparr>"

definition rerender :: "app \<Rightarrow> app" where
  \<comment> \<open>React calls the component again: the new closures see the cells as they are now\<close>
  "rerender a = a\<lparr>rendered := \<lparr> pageNum_seen = pageNum a, totalPages_seen = totalPages a,
      isLoadingUrl_seen = isLoadingUrl a \<rparr>\<rparr>"

definition view :: "app \<Rightarrow> PDFDocumentProxy option \<times> int \<times> int \<times> number \<times> int" where
  "view a = (pdfDoc a, pageNum a, totalPages a, scale a, rotation a)"

subsection \<open>The control surface\<close>

definition goToPrevPage :: "app \<Rightarrow> app" where
  \<comment> \<open>\<open>if (pageNum > 1) setPageNum(prevPageNum => prevPageNum - 1)\<close>\<close>
  "goToPrevPage a =
     (if pageNum_seen (rendered a) > 1 then a\<lparr>pageNum := pageNum a - 1\<rparr> else a)"

definition goToNextPage :: "app \<Rightarrow> app" where
  \<comment> \<open>\<open>if (pageNum < totalPages) setPageNum(prevPageNum => prevPageNum + 1)\<close>\<close>
  "goToNextPage a =
     (if pageNum_seen (rendered a) < totalPages_seen (rendered a)
      then a\<lparr>pageNum := pageNum a + 1\<rparr> else a)"

definition zoomIn :: "app \<Rightarrow> app" where
  "zoomIn a = a\<lparr>scale := Math_min (js_add (scale a) (binary64 (2 / 10))) 3\<rparr>"

definition zoomOut :: "app \<Rightarrow> app" where
  "zoomOut a = a\<lparr>scale := Math_max (js_sub (scale a) (binary64 (2 / 10))) (25 / 100)\<rparr>"

definition rotateClockwise :: "app \<Rightarrow> app" where
  "rotateClockwise a = a\<lparr>rotation := js_rem (rotation a + 90) 360\<rparr>"

definition rotateCounterClockwise :: "app \<Rightarrow> app" where
  "rotateCounterClockwise a = a\<lparr>rotation := js_rem (rotation a - 90 + 360) 360\<rparr>"

subsection \<open>The loader\<close>

definition describe :: "thrown \<Rightarrow> string" where
  \<comment> \<open>\<open>error instanceof Error ? error.message : String(error)\<close>\<close>
  "describe e = (case e of Error n m \<Rightarrow> m | Other s \<Rightarrow> s)"

definition clear_fileInput :: "app \<Rightarrow> app" where
  \<comment> \<open>\<open>if (fileInputRef.current) fileInputRef.current.value = ""\<close>\<close>
  "clear_fileInput a = (case fileInput a of None \<Rightarrow> a | Some v \<Rightarrow> a\<lparr>fileInput := Some []\<rparr>)"

definition alert :: "string \<Rightarrow> app \<Rightarrow> app" where
  "alert m a = a\<lparr>alerts := alerts a @ [m]\<rparr>"

definition console_error :: "string \<Rightarrow> app \<Rightarrow> app" where
  "console_error m a = a\<lparr>console := console a @ [m]\<rparr>"

definition valid_file :: "File option \<Rightarrow> bool" where
  \<comment> \<open>the negation of \<open>!file || file.type !== 'application/pdf'\<close>\<close>
  "valid_file f = (case f of None \<Rightarrow> False | Some x \<Rightarrow> file_type x = ''application/pdf'')"

definition handleFileChange_basic :: "File option \<Rightarrow> app \<Rightarrow> app" where
  \<comment> \<open>the basic variant, up to \<open>reader.readAsArrayBuffer(file)\<close>\<close>
  "handleFileChange_basic f a =
     (if \<not> valid_file f then clear_fileInput (alert ''Please select a valid PDF file'' a)
      else a)"

definition handleFileChange :: "File option \<Rightarrow> app \<Rightarrow> app" where
  \<comment> \<open>the extended variant, up to \<open>reader.readAsArrayBuffer(file)\<close>\<close>
  "handleFileChange f a =
     (if \<not> valid_file f then clear_fileInput (alert ''Please select a valid PDF file'' a)
      else a\<lparr>urlError := None, isLoadingUrl := False\<rparr>)"

definition load_succeeded :: "PDFDocumentProxy \<Rightarrow> app \<Rightarrow> app" where
  \<comment> \<open>the five setters after \<open>await loadingTask.promise\<close>, the same in both loaders\<close>
  "load_succeeded pdf a =
     a\<lparr>pdfDoc := Some pdf, totalPages := numPages pdf, pageNum := 1, scale := 1, rotation := 0\<rparr>"

definition reader_onload :: "nat list option \<Rightarrow> thrown + PDFDocumentProxy \<Rightarrow> app \<Rightarrow> app" where
  \<comment> \<open>\<open>reader.onload\<close>: the result of the read, and the outcome of \<open>getDocument\<close> on it\<close>
  "reader_onload result outcome a =
     (case result of
        None \<Rightarrow> alert ''Error reading file'' a
      | Some typedArray \<Rightarrow>
         (case outcome of
            Inr pdf \<Rightarrow> load_succeeded pdf a
          | Inl error \<Rightarrow>
              (clear_fileInput
                 (alert (''Error loading PDF file: '' @ describe error)
                    (console_error ''Error loading PDF:'' a)))
              \<lparr>pdfDoc := None, totalPages := 0\<rparr>))"

definition reader_onerror :: "app \<Rightarrow> app" where
  "reader_onerror a = clear_fileInput (alert ''Error reading file'' a)"

definition loadPdfFromUrl :: "string \<Rightarrow> app \<Rightarrow> app" where
  \<comment> \<open>up to \<open>await loadingTask.promise\<close>; the guard reads the \<open>isLoadingUrl\<close> of its render\<close>
  "loadPdfFromUrl url a =
     (if isLoadingUrl_seen (rendered a) then a
      else (clear_fileInput (a\<lparr>isLoadingUrl := True, urlError := None, pdfDoc := None\<rparr>))
             \<lparr>url_calls := url_calls a @ [url], url_pending := url_pending a + 1\<rparr>)"

definition url_error_message :: "string \<Rightarrow> thrown \<Rightarrow> string" where
  "url_error_message url err =
     (case err of
        Error n m \<Rightarrow>
          (if n = ''MissingPDFException''
           then ''File not found at URL: '' @ url @ ''. Or CORS issue.''
           else if n = ''UnexpectedResponseException''
           then ''Unexpected server response from URL: '' @ url
                @ ''. Check if the file exists and the server is configured correctly (CORS?).''
           else ''Failed to load PDF from URL.'' @ '' '' @ m)
      | Other s \<Rightarrow> ''Failed to load PDF from URL.'')"

definition loadPdfFromUrl_settled :: "string \<Rightarrow> thrown + PDFDocumentProxy \<Rightarrow> app \<Rightarrow> app" where
  \<comment> \<open>the rest of the \<open>try\<close>, the \<open>catch\<close> and the \<open>finally\<close>\<close>
  "loadPdfFromUrl_settled url outcome a =
     (case outcome of
        Inr pdf \<Rightarrow> load_succeeded pdf a
      | Inl err \<Rightarrow>
          (console_error ''Error loading PDF from URL:'' a)
          \<lparr>urlError := Some (url_error_message url err), pdfDoc := None, totalPages := 0\<rparr>)
     \<lparr>isLoadingUrl := False, url_pending := url_pending a - 1\<rparr>"

subsection \<open>The page renderer\<close>

definition render_failed :: "thrown \<Rightarrow> app \<Rightarrow> app" where
  \<comment> \<open>the \<open>catch\<close> block of \<open>renderPage\<close>\<close>
  "render_failed error a =
     alert (''Error rendering page: '' @ describe error) (console_error ''Error rendering page:'' a)"

definition renderPage_basic :: "int \<Rightarrow> app \<Rightarrow> app" where
  "renderPage_basic pageNumber a =
     (case pdfDoc a of
        None \<Rightarrow> a
      | Some doc \<Rightarrow>
         (case canvas a of
            None \<Rightarrow> console_error ''Canvas element not found.'' a
          | Some cv \<Rightarrow>
             (case getPage doc pageNumber of
                Inl error \<Rightarrow> render_failed error a
              | Inr page \<Rightarrow>
                  if \<not> getContext cv
                  then console_error ''Failed to get 2D context from canvas.'' a
                  else
                    let viewport = getViewport page (scale a) (rotation a);
                        cv1 = cv\<lparr>canvas_height := height viewport, canvas_width := width viewport\<rparr>;
                        a1 = a\<lparr>canvas := Some cv1\<rparr>
                    in (case render page of
                          Some error \<Rightarrow> render_failed error a1
                        | None \<Rightarrow> a1\<lparr>canvas := Some (cv1\<lparr>painted := Some viewport\<rparr>)\<rparr>))))"

definition renderPage :: "int \<Rightarrow> app \<Rightarrow> app" where
  "renderPage pageNumber a =
     (case pdfDoc a of
        None \<Rightarrow> a
      | Some doc \<Rightarrow>
         (case (canvas a, textLayer a) of
            (Some cv, Some textLayerDiv) \<Rightarrow>
             (case getPage doc pageNumber of
                Inl error \<Rightarrow> render_failed error a
              | Inr page \<Rightarrow>
                  if \<not> getContext cv
                  then console_error ''Failed to get 2D context from canvas.'' a
                  else
                    let viewport = getViewport page (scale a) (rotation a);
                        cv1 = cv\<lparr>canvas_height := height viewport, canvas_width := width viewport\<rparr>;
                        tl1 = textLayerDiv\<lparr>style_width := width viewport,
                                style_height := height viewport, innerHTML := []\<rparr>;
                        a1 = a\<lparr>canvas := Some cv1, textLayer := Some tl1\<rparr>
                    in (case render page of
                          Some error \<Rightarrow> render_failed error a1
                        | None \<Rightarrow>
                           let a2 = a1\<lparr>canvas := Some (cv1\<lparr>painted := Some viewport\<rparr>)\<rparr>
                           in (case getTextContent page of
                                 Inl error \<Rightarrow> render_failed error a2
                               | Inr textContent \<Rightarrow>
                                   a2\<lparr>textLayer := Some (tl1\<lparr>innerHTML := textContent\<rparr>)\<rparr>)))
          | _ \<Rightarrow> console_error ''Canvas element not found.'' a))"

definition useEffect_basic :: "app \<Rightarrow> app" where
  \<comment> \<open>the effect on \<open>[pdfDoc, pageNum, scale, rotation]\<close>, basic variant\<close>
  "useEffect_basic a =
     (if pdfDoc a \<noteq> None \<and> canvas a \<noteq> None then renderPage_basic (pageNum a) a else a)"

definition useEffect :: "app \<Rightarrow> app" where
  \<comment> \<open>the same effect in the extended variant\<close>
  "useEffect a = (if pdfDoc a \<noteq> None \<and> canvas a \<noteq> None then renderPage (pageNum a) a else a)"

subsection \<open>Runs\<close>

text \<open>
  An event is a call of a handler, the settling of a promise with what the environment
  supplies, or a render. \<open>Render\<close> is a render whose effect does not run and \<open>Effect\<close> one whose
  effect runs (the effect depends on \<open>[pdfDoc, pageNum, scale, rotation]\<close>, and runs in the
  closure of the render just made). Nothing orders renders and handlers: React renders after
  a handler has returned, but a second handler call may come first. A run applies a list of
  events in order, from the first to the last. The basic variant has no URL loader: the two
  URL events change nothing there.
\<close>

datatype variant = Basic | Extended

datatype event =
    FileChange "File option"
  | ReaderLoad "nat list option" "thrown + PDFDocumentProxy"
  | ReaderError
  | LoadUrl string
  | UrlSettled string "thrown + PDFDocumentProxy"
  | PrevPage | NextPage | ZoomIn | ZoomOut | RotateRight | RotateLeft
  | Render
  | Effect

fun step :: "variant \<Rightarrow> event \<Rightarrow> app \<Rightarrow> app" where
  "step Basic (FileChange f) a = handleFileChange_basic f a"
| "step Extended (FileChange f) a = handleFileChange f a"
| "step v (ReaderLoad result outcome) a = reader_onload result outcome a"
| "step v ReaderError a = reader_onerror a"
| "step Basic (LoadUrl url) a = a"
| "step Extended (LoadUrl url) a = loadPdfFromUrl url a"
| "step Basic (UrlSettled url outcome) a = a"
| "step Extended (UrlSettled url outcome) a = loadPdfFromUrl_settled url outcome a"
| "step v PrevPage a = goToPrevPage a"
| "step v NextPage a = goToNextPage a"
| "step v ZoomIn a = zoomIn a"
| "step v ZoomOut a = zoomOut a"
| "step v RotateRight a = rotateClockwise a"
| "step v RotateLeft a = rotateCounterClockwise a"
| "step v Render a = rerender a"
| "step Basic Effect a = useEffect_basic (rerender a)"
| "step Extended Effect a = useEffect (rerender a)"

fun run :: "variant \<Rightarrow> event list \<Rightarrow> app \<Rightarrow> app" where
  "run v [] a = a"
| "run v (e # es) a = run v es (step v e a)"

text \<open>
  A page-navigation handler is called from a current render when the page number and the page
  count of its render are those of the cells: React has rendered since they last changed.
\<close>

definition current_render :: "app \<Rightarrow> bool" where
  "current_render a =
     (pageNum_seen (rendered a) = pageNum a \<and> totalPages_seen (rendered a) = totalPages a)"

fun navigation_current :: "variant \<Rightarrow> event list \<Rightarrow> app \<Rightarrow> bool" where
  "navigation_current v [] a = True"
| "navigation_current v (PrevPage # es) a =
     (current_render a \<and> navigation_current v es (step v PrevPage a))"
| "navigation_current v (NextPage # es) a =
     (current_render a \<and> navigation_current v es (step v NextPage a))"
| "navigation_current v (e # es) a = navigation_current v es (step v e a)"

fun delivers :: "event \<Rightarrow> PDFDocumentProxy option" where
  \<comment> \<open>the document that an event hands to the component, if it hands one\<close>
  "delivers (ReaderLoad (Some typedArray) (Inr pdf)) = Some pdf"
| "delivers (UrlSettled url (Inr pdf)) = Some pdf"
| "delivers e = None"

definition has_pages :: "event \<Rightarrow> bool" where
  "has_pages e = (case delivers e of None \<Rightarrow> True | Some pdf \<Rightarrow> 1 \<le> numPages pdf)"

subsection \<open>Invariants\<close>

definition page_ok :: "app \<Rightarrow> bool" where
  "page_ok a = (pdfDoc a \<noteq> None \<longrightarrow> 1 \<le> pageNum a \<and> pageNum a \<le> totalPages a)"

definition scale_ok :: "app \<Rightarrow> bool" where
  "scale_ok a = (1 / 4 \<le> scale a \<and> scale a \<le> 3)"

definition quarter_turn :: "int \<Rightarrow> bool" where
  "quarter_turn r = (r = 0 \<or> r = 90 \<or> r = 180 \<or> r = 270)"

subsection \<open>Example data\<close>

definition png :: File where
  "png = \<lparr>file_type = ''image/png'', file_bytes = [137, 80, 78, 71]\<rparr>"

definition report_pdf :: File where
  "report_pdf = \<lparr>file_type = ''application/pdf'', file_bytes = [37, 80, 68, 70]\<rparr>"

definition a4_page :: PDFPageProxy where
  "a4_page = \<lparr>getViewport = (\<lambda>s r. \<lparr>width = 595 * s, height = 842 * s\<rparr>),
      render = None, getTextContent = Inr [''Hello'']\<rparr>"

definition bad_page :: PDFPageProxy where
  "bad_page = \<lparr>getViewport = (\<lambda>s r. \<lparr>width = 595 * s, height = 842 * s\<rparr>),
      render = Some (Error ''RenderingCancelledException'' ''cancelled''),
      getTextContent = Inr []\<rparr>"

definition scanned_page :: PDFPageProxy where
  "scanned_page = \<lparr>getViewport = (\<lambda>s r. \<lparr>width = 595 * s, height = 842 * s\<rparr>),
      render = None, getTextContent = Inl (Other ''no text'')\<rparr>"

definition three_pages :: PDFDocumentProxy where
  "three_pages = \<lparr>numPages = 3,
      getPage = (\<lambda>n. if n = 3 then Inr bad_page else if n = 2 then Inr scanned_page
                      else if n = 1 then Inr a4_page
                      else Inl (Error ''Error'' ''Invalid page request.''))\<rparr>"

definition no_pages :: PDFDocumentProxy where
  "no_pages = \<lparr>numPages = 0, getPage = (\<lambda>n. Inl (Error ''Error'' ''Invalid page request.''))\<rparr>"

definition blank_canvas :: HTMLCanvasElement where
  "blank_canvas = \<lparr>canvas_width = 300, canvas_height = 150, getContext = True, painted = None\<rparr>"

definition empty_layer :: HTMLDivElement where
  "empty_layer = \<lparr>style_width = 0, style_height = 0, innerHTML = []\<rparr>"

definition mounted :: app where
  \<comment> \<open>the three-page document loaded and rendered, the canvas and the text layer in place\<close>
  "mounted = rerender ((load_succeeded three_pages initial)
     \<lparr>canvas := Some blank_canvas, textLayer := Some empty_layer\<rparr>)"

definition on_page_2 :: app where
  \<comment> \<open>the three-page document loaded from a file, one step forward, page 2 rendered\<close>
  "on_page_2 = run Basic
     [ReaderLoad (Some [37, 80, 68, 70]) (Inr three_pages), Render, NextPage, Render] initial"

definition no_context :: app where
  \<comment> \<open>the same with a canvas that yields no 2D context\<close>
  "no_context = mounted\<lparr>canvas := Some (blank_canvas\<lparr>getContext := False\<rparr>)\<rparr>"

section \<open>Properties\<close>

subsection \<open>Frame lemmas\<close>

lemma view_simps [simp]:
  "view (clear_fileInput a) = view a"
  "view (alert m a) = view a"
  "view (console_error m a) = view a"
  by (simp_all add: clear_fileInput_def alert_def console_error_def view_def split: option.splits)

lemma view_render_failed [simp]: "view (render_failed e a) = view a"
  by (simp add: render_failed_def)

lemma view_canvas_update [simp]:
  "view (a\<lparr>canvas := c\<rparr>) = view a"
  "view (a\<lparr>textLayer := t\<rparr>) = view a"
  "view (a\<lparr>canvas := c, textLayer := t\<rparr>) = view a"
  by (simp_all add: view_def)

lemma renderPage_view: "view (renderPage n a) = view a"
  by (simp add: renderPage_def Let_def split: option.splits sum.splits prod.splits)

lemma renderPage_basic_view: "view (renderPage_basic n a) = view a"
  by (simp add: renderPage_basic_def Let_def split: option.splits sum.splits)

lemma alerts_render_failed:
  "alerts (render_failed e a) = alerts a @ [''Error rendering page: '' @ describe e]"
  by (simp add: render_failed_def alert_def console_error_def)

subsection \<open>Page navigation\<close>

text \<open>
  Claim C2: \<open>goToPrevPage\<close> leaves the state unchanged when the current page equals 1 and
  otherwise decrements it by exactly 1; \<open>goToNextPage\<close> leaves the state unchanged when the
  current page equals \<open>totalPages\<close> and otherwise increments it by exactly 1. The code does not
  do that. Both handlers test the page number of the render they come from and change the
  page number of the cell. With the three-page document on page 2, two calls of
  \<open>goToNextPage\<close> from that one render both pass the test \<open>2 < 3\<close>: the second call finds the
  current page equal to \<open>totalPages\<close> and adds one all the same, which gives page 4 of 3. Two
  calls of \<open>goToPrevPage\<close> from that render give page 0. (\<open>zoomIn\<close> and \<open>zoomOut\<close> clamp
  inside the update, on the value of the cell.)
\<close>

theorem navigation_from_stale_render:
  "pdfDoc on_page_2 = Some three_pages \<and> current_render on_page_2 \<and>
   pageNum on_page_2 = 2 \<and> totalPages on_page_2 = 3 \<and>
   pageNum (goToNextPage on_page_2) = 3 \<and>
   totalPages (goToNextPage on_page_2) = 3 \<and>
   pageNum (goToNextPage (goToNextPage on_page_2)) = 4 \<and>
   pageNum (goToPrevPage on_page_2) = 1 \<and>
   pageNum (goToPrevPage (goToPrevPage on_page_2)) = 0"
  by (simp add: on_page_2_def reader_onload_def load_succeeded_def three_pages_def initial_def
      rerender_def goToNextPage_def goToPrevPage_def current_render_def)

text \<open>
  Called from a current render, with the page within \<open>[1, totalPages]\<close>, both handlers do what
  claim C2 says.
\<close>

lemma page_navigation_current_render:
  assumes "current_render a" and "1 \<le> pageNum a" and "pageNum a \<le> totalPages a"
  shows "goToPrevPage a = (if pageNum a = 1 then a else a\<lparr>pageNum := pageNum a - 1\<rparr>)"
    and "goToNextPage a
          = (if pageNum a = totalPages a then a else a\<lparr>pageNum := pageNum a + 1\<rparr>)"
  using assms by (simp_all add: goToPrevPage_def goToNextPage_def current_render_def)

subsection \<open>Loading\<close>

text \<open>
  Claim C5: after a successful load, from a file or from a URL, the document handle is the
  newly loaded document, \<open>totalPages\<close> is its page count, the page is 1, the scale 1.0 and the
  rotation 0.
\<close>

theorem load_resets_view:
  "pdfDoc (reader_onload (Some bytes) (Inr pdf) a) = Some pdf \<and>
   totalPages (reader_onload (Some bytes) (Inr pdf) a) = numPages pdf \<and>
   pageNum (reader_onload (Some bytes) (Inr pdf) a) = 1 \<and>
   scale (reader_onload (Some bytes) (Inr pdf) a) = 1 \<and>
   rotation (reader_onload (Some bytes) (Inr pdf) a) = 0 \<and>
   pdfDoc (loadPdfFromUrl_settled url (Inr pdf) a) = Some pdf \<and>
   totalPages (loadPdfFromUrl_settled url (Inr pdf) a) = numPages pdf \<and>
   pageNum (loadPdfFromUrl_settled url (Inr pdf) a) = 1 \<and>
   scale (loadPdfFromUrl_settled url (Inr pdf) a) = 1 \<and>
   rotation (loadPdfFromUrl_settled url (Inr pdf) a) = 0"
  by (simp add: reader_onload_def loadPdfFromUrl_settled_def load_succeeded_def)

text \<open>
  Claim C6: a selection that is empty or whose MIME type is not \<open>application/pdf\<close> is
  rejected, in both variants alike: one alert is shown, the value of the file input is cleared,
  and the document handle, page, \<open>totalPages\<close>, scale and rotation (and the two load-status
  cells) are what they were.
\<close>

theorem invalid_file_rejected:
  assumes "f = None \<or> (\<exists>x. f = Some x \<and> file_type x \<noteq> ''application/pdf'')"
  shows "view (handleFileChange f a) = view a \<and>
         isLoadingUrl (handleFileChange f a) = isLoadingUrl a \<and>
         urlError (handleFileChange f a) = urlError a \<and>
         alerts (handleFileChange f a) = alerts a @ [''Please select a valid PDF file''] \<and>
         fileInput (handleFileChange f a) = map_option (\<lambda>v. []) (fileInput a) \<and>
         handleFileChange_basic f a = handleFileChange f a"
proof -
  from assms have "\<not> valid_file f"
    by (auto simp: valid_file_def)
  then show ?thesis
    by (simp add: handleFileChange_def handleFileChange_basic_def clear_fileInput_def alert_def
        view_def split: option.splits)
qed

theorem invalid_file_rejected_witness:
  "file_type png \<noteq> ''application/pdf'' \<and>
   view (handleFileChange (Some png) mounted) = view mounted \<and>
   alerts (handleFileChange (Some png) mounted) = [''Please select a valid PDF file''] \<and>
   fileInput (handleFileChange (Some png) mounted) = Some []"
  using invalid_file_rejected [of "Some png" mounted]
  by (simp add: png_def mounted_def rerender_def load_succeeded_def initial_def)

text \<open>
  Claim C10: when the library rejects the bytes of a file, the document handle becomes null and
  \<open>totalPages\<close> 0; the page, the scale and the rotation (and the two load-status cells) keep
  their values.
\<close>

theorem failed_file_load_keeps_view:
  "pdfDoc (reader_onload (Some bytes) (Inl error) a) = None \<and>
   totalPages (reader_onload (Some bytes) (Inl error) a) = 0 \<and>
   pageNum (reader_onload (Some bytes) (Inl error) a) = pageNum a \<and>
   scale (reader_onload (Some bytes) (Inl error) a) = scale a \<and>
   rotation (reader_onload (Some bytes) (Inl error) a) = rotation a \<and>
   isLoadingUrl (reader_onload (Some bytes) (Inl error) a) = isLoadingUrl a \<and>
   urlError (reader_onload (Some bytes) (Inl error) a) = urlError a"
  by (simp add: reader_onload_def clear_fileInput_def alert_def console_error_def
      split: option.splits)

subsection \<open>Rendering\<close>

text \<open>
  Claim C9, as stated, has every failure of a render surfaced as an alert. When the canvas
  yields no 2D context, \<open>renderPage\<close> (in both variants) writes one line to the console and
  returns: nothing is painted and no alert is shown.
\<close>

theorem render_failure_alert_counterexample:
  "pdfDoc no_context = Some three_pages \<and>
   canvas no_context = Some (blank_canvas\<lparr>getContext := False\<rparr>) \<and>
   textLayer no_context = Some empty_layer \<and>
   getPage three_pages 1 = Inr a4_page \<and>
   alerts (renderPage 1 no_context) = [] \<and>
   alerts (renderPage_basic 1 no_context) = [] \<and>
   console (renderPage 1 no_context) = [''Failed to get 2D context from canvas.''] \<and>
   painted (the (canvas (renderPage 1 no_context))) = None"
  by (simp add: no_context_def mounted_def rerender_def load_succeeded_def initial_def
      three_pages_def blank_canvas_def renderPage_def renderPage_basic_def console_error_def)

text \<open>
  Claim C9, amended: \<open>renderPage\<close>, in both variants, never modifies the view-state store: it
  returns with the document handle, page, \<open>totalPages\<close>, scale and rotation it was called with,
  whatever the document, the canvas, the text layer and the library do, so the view state
  remains pointed at the failed page. When a step inside its \<open>try\<close> block throws (fetching the
  page, rasterising, and in the extended variant fetching the text content), exactly one alert
  with the message of the thrown value is shown. When the canvas yields no 2D context, the
  failure is written to the console and no alert is shown. (\<open>renderTextLayer\<close> is not awaited:
  the handler is over when it has been called.)
\<close>

theorem renderPage_frame:
  "view (renderPage n a) = view a \<and> view (renderPage_basic n a) = view a \<and>
   (pdfDoc a = Some doc \<and> canvas a = Some cv \<and> textLayer a = Some layer \<longrightarrow>
      (getPage doc n = Inl e \<longrightarrow>
         alerts (renderPage n a) = alerts a @ [''Error rendering page: '' @ describe e]) \<and>
      (getPage doc n = Inr page \<and> getContext cv \<and> render page = Some e \<longrightarrow>
         alerts (renderPage n a) = alerts a @ [''Error rendering page: '' @ describe e]) \<and>
      (getPage doc n = Inr page \<and> getContext cv \<and> render page = None
         \<and> getTextContent page = Inl e \<longrightarrow>
         alerts (renderPage n a) = alerts a @ [''Error rendering page: '' @ describe e]) \<and>
      (getPage doc n = Inr page \<and> \<not> getContext cv \<longrightarrow>
         alerts (renderPage n a) = alerts a \<and>
         console (renderPage n a) = console a @ [''Failed to get 2D context from canvas.''])) \<and>
   (pdfDoc a = Some doc \<and> canvas a = Some cv \<longrightarrow>
      (getPage doc n = Inl e \<longrightarrow>
         alerts (renderPage_basic n a) = alerts a @ [''Error rendering page: '' @ describe e]) \<and>
      (getPage doc n = Inr page \<and> getContext cv \<and> render page = Some e \<longrightarrow>
         alerts (renderPage_basic n a) = alerts a @ [''Error rendering page: '' @ describe e]) \<and>
      (getPage doc n = Inr page \<and> \<not> getContext cv \<longrightarrow>
         alerts (renderPage_basic n a) = alerts a \<and>
         console (renderPage_basic n a)
           = console a @ [''Failed to get 2D context from canvas.'']))"
proof -
  have "alerts (renderPage n a) = alerts a @ [''Error rendering page: '' @ describe e]"
    if "pdfDoc a = Some doc" "canvas a = Some cv" "textLayer a = Some layer"
      and "getPage doc n = Inl e
         \<or> (getPage doc n = Inr page \<and> getContext cv \<and> render page = Some e)
         \<or> (getPage doc n = Inr page \<and> getContext cv \<and> render page = None
              \<and> getTextContent page = Inl e)"
    using that by (auto simp: renderPage_def Let_def alerts_render_failed)
  moreover
  have "alerts (renderPage_basic n a) = alerts a @ [''Error rendering page: '' @ describe e]"
    if "pdfDoc a = Some doc" "canvas a = Some cv"
      and "getPage doc n = Inl e
         \<or> (getPage doc n = Inr page \<and> getContext cv \<and> render page = Some e)"
    using that by (auto simp: renderPage_basic_def Let_def alerts_render_failed)
  moreover
  have "alerts (renderPage n a) = alerts a \<and>
        console (renderPage n a) = console a @ [''Failed to get 2D context from canvas.'']"
    if "pdfDoc a = Some doc" "canvas a = Some cv" "textLayer a = Some layer"
      and "getPage doc n = Inr page" "\<not> getContext cv"
    using that by (simp add: renderPage_def console_error_def)
  moreover
  have "alerts (renderPage_basic n a) = alerts a \<and>
        console (renderPage_basic n a) = console a @ [''Failed to get 2D context from canvas.'']"
    if "pdfDoc a = Some doc" "canvas a = Some cv"
      and "getPage doc n = Inr page" "\<not> getContext cv"
    using that by (simp add: renderPage_basic_def console_error_def)
  ultimately show ?thesis
    using renderPage_view [of n a] renderPage_basic_view [of n a] by blast
qed

theorem renderPage_frame_witness:
  "pdfDoc mounted = Some three_pages \<and> canvas mounted = Some blank_canvas \<and>
   textLayer mounted = Some empty_layer \<and> getContext blank_canvas \<and>
   getPage three_pages 3 = Inr bad_page \<and>
   render bad_page = Some (Error ''RenderingCancelledException'' ''cancelled'') \<and>
   getPage three_pages 2 = Inr scanned_page \<and> render scanned_page = None \<and>
   getTextContent scanned_page = Inl (Other ''no text'') \<and>
   getPage three_pages 7 = Inl (Error ''Error'' ''Invalid page request.'') \<and>
   view (renderPage 3 mounted) = view mounted \<and>
   alerts (renderPage 3 mounted) = [''Error rendering page: cancelled''] \<and>
   alerts (renderPage_basic 3 mounted) = [''Error rendering page: cancelled''] \<and>
   alerts (renderPage 2 mounted) = [''Error rendering page: no text''] \<and>
   alerts (renderPage 7 mounted) = [''Error rendering page: Invalid page request.''] \<and>
   pageNum (renderPage 7 mounted) = 1 \<and>
   pdfDoc no_context = Some three_pages \<and>
   canvas no_context = Some (blank_canvas\<lparr>getContext := False\<rparr>) \<and>
   textLayer no_context = Some empty_layer \<and>
   getPage three_pages 1 = Inr a4_page \<and>
   console (renderPage 1 no_context) = [''Failed to get 2D context from canvas.'']"
  using renderPage_frame [of 3 mounted three_pages blank_canvas empty_layer
      "Error ''RenderingCancelledException'' ''cancelled''" bad_page]
    renderPage_frame [of 2 mounted three_pages blank_canvas empty_layer
      "Other ''no text''" scanned_page]
    renderPage_frame [of 7 mounted three_pages blank_canvas empty_layer
      "Error ''Error'' ''Invalid page request.''" a4_page]
    renderPage_frame [of 1 no_context three_pages "blank_canvas\<lparr>getContext := False\<rparr>"
      empty_layer "Other []" a4_page]
  by (simp add: no_context_def mounted_def rerender_def three_pages_def bad_page_def
      scanned_page_def blank_canvas_def load_succeeded_def initial_def describe_def view_def)

subsection \<open>What the effect leaves alone\<close>

lemma view_eq_iff:
  "view a = view b \<longleftrightarrow>
     pdfDoc a = pdfDoc b \<and> pageNum a = pageNum b \<and> totalPages a = totalPages b \<and>
     scale a = scale b \<and> rotation a = rotation b"
  by (simp add: view_def)

lemma load_status_render_failed:
  "isLoadingUrl (render_failed e a) = isLoadingUrl a"
  "url_pending (render_failed e a) = url_pending a"
  by (simp_all add: render_failed_def alert_def console_error_def)

lemma load_status_renderPage:
  "isLoadingUrl (renderPage n a) = isLoadingUrl a \<and> url_pending (renderPage n a) = url_pending a"
  by (simp add: renderPage_def Let_def load_status_render_failed console_error_def
      split: option.splits sum.splits prod.splits)

lemma load_status_renderPage_basic:
  "isLoadingUrl (renderPage_basic n a) = isLoadingUrl a \<and>
   url_pending (renderPage_basic n a) = url_pending a"
  by (simp add: renderPage_basic_def Let_def load_status_render_failed console_error_def
      split: option.splits sum.splits)

lemma useEffect_fields [simp]:
  "pdfDoc (useEffect a) = pdfDoc a"
  "pageNum (useEffect a) = pageNum a"
  "totalPages (useEffect a) = totalPages a"
  "scale (useEffect a) = scale a"
  "rotation (useEffect a) = rotation a"
  "isLoadingUrl (useEffect a) = isLoadingUrl a"
  "url_pending (useEffect a) = url_pending a"
  using renderPage_view [of "pageNum a" a] load_status_renderPage [of "pageNum a" a]
  by (simp_all add: useEffect_def view_eq_iff)

lemma useEffect_basic_fields [simp]:
  "pdfDoc (useEffect_basic a) = pdfDoc a"
  "pageNum (useEffect_basic a) = pageNum a"
  "totalPages (useEffect_basic a) = totalPages a"
  "scale (useEffect_basic a) = scale a"
  "rotation (useEffect_basic a) = rotation a"
  "isLoadingUrl (useEffect_basic a) = isLoadingUrl a"
  "url_pending (useEffect_basic a) = url_pending a"
  using renderPage_basic_view [of "pageNum a" a] load_status_renderPage_basic [of "pageNum a" a]
  by (simp_all add: useEffect_basic_def view_eq_iff)

lemma rerender_fields [simp]:
  "pdfDoc (rerender a) = pdfDoc a"
  "pageNum (rerender a) = pageNum a"
  "totalPages (rerender a) = totalPages a"
  "scale (rerender a) = scale a"
  "rotation (rerender a) = rotation a"
  "isLoadingUrl (rerender a) = isLoadingUrl a"
  "url_pending (rerender a) = url_pending a"
  by (simp_all add: rerender_def)

lemmas handler_defs =
  handleFileChange_def handleFileChange_basic_def clear_fileInput_def alert_def console_error_def
  reader_onload_def reader_onerror_def loadPdfFromUrl_def loadPdfFromUrl_settled_def
  load_succeeded_def goToPrevPage_def goToNextPage_def zoomIn_def zoomOut_def
  rotateClockwise_def rotateCounterClockwise_def

subsection \<open>The page stays in range\<close>

lemma page_ok_step:
  assumes "has_pages e" and "page_ok a"
    and "e = PrevPage \<or> e = NextPage \<longrightarrow> current_render a"
  shows "page_ok (step v e a)"
  using assms
  by (cases v; cases e rule: delivers.cases)
    (auto simp: page_ok_def has_pages_def current_render_def handler_defs split: option.splits)

lemma navigation_current_Cons:
  assumes "navigation_current v (e # es) a"
  shows "e = PrevPage \<or> e = NextPage \<longrightarrow> current_render a"
    and "navigation_current v es (step v e a)"
  using assms by (cases e; simp)+

lemma page_ok_run:
  "\<forall>e\<in>set es. has_pages e \<Longrightarrow> navigation_current v es a \<Longrightarrow> page_ok a
     \<Longrightarrow> page_ok (run v es a)"
proof (induction es arbitrary: a)
  case Nil
  then show ?case by simp
next
  case (Cons e es)
  from Cons.prems have "page_ok (step v e a)"
    by (intro page_ok_step navigation_current_Cons(1) [of v e es a]) simp_all
  moreover from Cons.prems have "navigation_current v es (step v e a)"
    by (intro navigation_current_Cons(2))
  ultimately show ?case
    using Cons.IH Cons.prems(1) by simp
qed

lemma delivers_step:
  assumes "delivers e = Some pdf"
  shows "pdfDoc (step Extended e a) = Some pdf \<and> pageNum (step Extended e a) = 1 \<and>
         totalPages (step Extended e a) = numPages pdf"
  using assms
  by (cases e rule: delivers.cases)
    (simp_all add: reader_onload_def loadPdfFromUrl_settled_def load_succeeded_def)

text \<open>
  Claim C1, as stated, covers every document the library returns and every order of handler
  calls and renders. It fails in two ways. The page count of a document is whatever number the
  library reports: for a document that reports no pages the load sets \<open>totalPages\<close> to 0 and
  the page to 1. And a navigation handler tests the page of its render: with the three-page
  document on page 2, two calls of \<open>goToNextPage\<close> from that one render give page 4 of 3.
\<close>

theorem page_in_range_counterexample:
  "pdfDoc (run Extended [ReaderLoad (Some [37, 80, 68, 70]) (Inr no_pages)] initial) \<noteq> None \<and>
   \<not> (1 \<le> pageNum (run Extended [ReaderLoad (Some [37, 80, 68, 70]) (Inr no_pages)] initial) \<and>
      pageNum (run Extended [ReaderLoad (Some [37, 80, 68, 70]) (Inr no_pages)] initial)
        \<le> totalPages (run Extended [ReaderLoad (Some [37, 80, 68, 70]) (Inr no_pages)] initial)) \<and>
   list_all has_pages
     [ReaderLoad (Some [37, 80, 68, 70]) (Inr three_pages), Render, NextPage, Render,
      NextPage, NextPage] \<and>
   pdfDoc (run Basic
     [ReaderLoad (Some [37, 80, 68, 70]) (Inr three_pages), Render, NextPage, Render,
      NextPage, NextPage] initial) \<noteq> None \<and>
   pageNum (run Basic
     [ReaderLoad (Some [37, 80, 68, 70]) (Inr three_pages), Render, NextPage, Render,
      NextPage, NextPage] initial) = 4 \<and>
   totalPages (run Basic
     [ReaderLoad (Some [37, 80, 68, 70]) (Inr three_pages), Render, NextPage, Render,
      NextPage, NextPage] initial) = 3"
  by (simp add: reader_onload_def load_succeeded_def no_pages_def three_pages_def initial_def
      has_pages_def rerender_def goToNextPage_def)

text \<open>
  Claim C1, amended: for every sequence of operations (loads, page navigation, zoom, rotate,
  renders) in which every loaded document has at least one page and every page-navigation
  handler is called from a current render (React has rendered since the page number and
  \<open>totalPages\<close> last changed), in either variant and from the initial state, whenever a document
  is loaded the current page is in \<open>[1, totalPages]\<close>; every successful load sets the page to 1
  and \<open>totalPages\<close> to the page count of the document.
\<close>

theorem page_in_range:
  assumes "\<forall>e\<in>set es. has_pages e" and "navigation_current v es initial"
  shows "(pdfDoc (run v es initial) \<noteq> None \<longrightarrow>
            1 \<le> pageNum (run v es initial) \<and>
            pageNum (run v es initial) \<le> totalPages (run v es initial)) \<and>
         (\<forall>e\<in>set es. \<forall>pdf a. delivers e = Some pdf \<longrightarrow>
            pdfDoc (step Extended e a) = Some pdf \<and> pageNum (step Extended e a) = 1 \<and>
            totalPages (step Extended e a) = numPages pdf)"
proof -
  have "page_ok initial"
    by (simp add: page_ok_def initial_def)
  with assms have "page_ok (run v es initial)"
    by (intro page_ok_run)
  then show ?thesis
    by (simp add: page_ok_def delivers_step)
qed

theorem page_in_range_witness:
  "list_all has_pages
     [UrlSettled ''/test.pdf'' (Inr three_pages), Render, NextPage, Render, NextPage, Render,
      NextPage, PrevPage] \<and>
   navigation_current Extended
     [UrlSettled ''/test.pdf'' (Inr three_pages), Render, NextPage, Render, NextPage, Render,
      NextPage, PrevPage] initial \<and>
   pdfDoc (run Extended
     [UrlSettled ''/test.pdf'' (Inr three_pages), Render, NextPage, Render, NextPage, Render,
      NextPage, PrevPage] initial) \<noteq> None \<and>
   pageNum (run Extended
     [UrlSettled ''/test.pdf'' (Inr three_pages), Render, NextPage, Render, NextPage, Render,
      NextPage, PrevPage] initial) = 2 \<and>
   totalPages (run Extended
     [UrlSettled ''/test.pdf'' (Inr three_pages), Render, NextPage, Render, NextPage, Render,
      NextPage, PrevPage] initial) = 3"
  using page_in_range
    [of "[UrlSettled ''/test.pdf'' (Inr three_pages), Render, NextPage, Render, NextPage,
          Render, NextPage, PrevPage]" Extended]
  by (simp add: has_pages_def three_pages_def loadPdfFromUrl_settled_def load_succeeded_def
      initial_def rerender_def goToNextPage_def goToPrevPage_def current_render_def)

text \<open>
  A three-page document, with a render after every event: the load shows page 1 of 3, two
  steps forward reach page 3, a third one changes nothing, and four quarter turns to the
  right come back to 0.
\<close>

lemma three_page_scenario:
  "totalPages (run Basic [ReaderLoad (Some [37, 80, 68, 70]) (Inr three_pages), Render]
     initial) = 3"
  "pageNum (run Basic [ReaderLoad (Some [37, 80, 68, 70]) (Inr three_pages), Render]
     initial) = 1"
  "pageNum (run Basic [ReaderLoad (Some [37, 80, 68, 70]) (Inr three_pages), Render,
     NextPage, Render, NextPage, Render] initial) = 3"
  "pageNum (run Basic [ReaderLoad (Some [37, 80, 68, 70]) (Inr three_pages), Render,
     NextPage, Render, NextPage, Render, NextPage, Render] initial) = 3"
  "rotation (run Basic [ReaderLoad (Some [37, 80, 68, 70]) (Inr three_pages), Render,
     RotateRight, Render, RotateRight, Render, RotateRight, Render, RotateRight, Render]
     initial) = 0"
  by (simp_all add: reader_onload_def load_succeeded_def three_pages_def initial_def
      rerender_def goToNextPage_def rotateClockwise_def js_rem_def)

subsection \<open>Rotation\<close>

lemma rotation_step: "quarter_turn (rotation a) \<Longrightarrow> quarter_turn (rotation (step v e a))"
  by (cases v; cases e rule: delivers.cases)
    (auto simp: quarter_turn_def js_rem_def handler_defs split: option.splits)

lemma rotation_run: "quarter_turn (rotation a) \<Longrightarrow> quarter_turn (rotation (run v es a))"
  by (induction es arbitrary: a) (simp_all add: rotation_step)

text \<open>
  Claim C4: from a rotation in \<open>{0, 90, 180, 270}\<close> (0 in the initial state and after every
  load), every sequence of events, the two rotations among them, leaves the rotation in that
  set. \<open>rotateClockwise\<close> yields the rotation plus 90 modulo 360 and \<open>rotateCounterClockwise\<close>
  the rotation minus 90 modulo 360; the latter adds 360 before \<open>%\<close>, so that the dividend is
  not negative.
\<close>

theorem rotation_quarter_turns:
  assumes "rotation a \<in> {0, 90, 180, 270}"
  shows "rotation (run v es a) \<in> {0, 90, 180, 270} \<and>
         rotation (rotateClockwise a) = (rotation a + 90) mod 360 \<and>
         rotation (rotateCounterClockwise a) = (rotation a - 90) mod 360 \<and>
         rotation (rotateCounterClockwise a) = js_rem (rotation a - 90 + 360) 360 \<and>
         0 \<le> rotation a - 90 + 360"
proof -
  from assms have q: "quarter_turn (rotation a)"
    by (simp add: quarter_turn_def)
  then have "quarter_turn (rotation (run v es a))"
    by (rule rotation_run)
  then have "rotation (run v es a) \<in> {0, 90, 180, 270}"
    by (simp add: quarter_turn_def)
  moreover from q have "rotation (rotateClockwise a) = (rotation a + 90) mod 360"
    by (auto simp: quarter_turn_def rotateClockwise_def js_rem_def)
  moreover from q have "rotation (rotateCounterClockwise a) = (rotation a - 90) mod 360"
    by (auto simp: quarter_turn_def rotateCounterClockwise_def js_rem_def)
  moreover from q have "0 \<le> rotation a - 90 + 360"
    by (auto simp: quarter_turn_def)
  ultimately show ?thesis
    by (simp add: rotateCounterClockwise_def)
qed

theorem rotation_quarter_turns_witness:
  "rotation initial \<in> {0, 90, 180, 270} \<and>
   rotation (run Basic [RotateLeft] initial) = 270 \<and>
   rotation (run Extended [RotateRight, RotateRight, RotateRight, RotateRight] initial) = 0 \<and>
   rotation (rotateCounterClockwise initial) = 270 \<and>
   js_rem (rotation initial - 90) 360 = - 90"
  using rotation_quarter_turns [of initial Basic "[RotateLeft]"]
    rotation_quarter_turns [of initial Extended "[RotateRight, RotateRight, RotateRight, RotateRight]"]
  by (simp add: initial_def rotateClockwise_def rotateCounterClockwise_def js_rem_def)

subsection \<open>The URL loader\<close>

text \<open>
  Claim C7: a call of the URL loader while a URL load is in flight is ignored (no second
  \<open>getDocument\<close> call, no state change), and the loading flag is set for the duration of the load
  and false again once it has settled. The code does not do that. The guard of
  \<open>loadPdfFromUrl\<close> reads the \<open>isLoadingUrl\<close> of the render the handler comes from. Two calls from
  the initial render both find it false: the second one runs while the flag of the cell is
  already set, calls \<open>getDocument\<close> again and applies the setters again, so that two loads are
  in flight; when the first one settles the flag is cleared while the other is still pending.
\<close>

theorem loadPdfFromUrl_from_stale_render:
  "isLoadingUrl (run Extended [LoadUrl ''/test.pdf''] initial) \<and>
   url_pending (run Extended [LoadUrl ''/test.pdf''] initial) = 1 \<and>
   url_calls (run Extended [LoadUrl ''/test.pdf'', LoadUrl ''/test.pdf''] initial)
     = [''/test.pdf'', ''/test.pdf''] \<and>
   url_pending (run Extended [LoadUrl ''/test.pdf'', LoadUrl ''/test.pdf''] initial) = 2 \<and>
   \<not> isLoadingUrl (run Extended [LoadUrl ''/test.pdf'', LoadUrl ''/test.pdf'',
      UrlSettled ''/test.pdf'' (Inr three_pages)] initial) \<and>
   url_pending (run Extended [LoadUrl ''/test.pdf'', LoadUrl ''/test.pdf'',
      UrlSettled ''/test.pdf'' (Inr three_pages)] initial) = 1"
  by (simp add: initial_def loadPdfFromUrl_def loadPdfFromUrl_settled_def clear_fileInput_def
      load_succeeded_def)

text \<open>
  Called from a render that has seen the flag set, \<open>loadPdfFromUrl\<close> returns the state as it is,
  the list of \<open>getDocument\<close> calls included; called from a render that has seen it clear, it
  sets the flag and makes one \<open>getDocument\<close> call. When a promise settles, with a document or
  with an error, the flag is cleared.
\<close>

lemma loadPdfFromUrl_guard:
  "isLoadingUrl_seen (rendered a) \<Longrightarrow> loadPdfFromUrl url a = a"
  "\<not> isLoadingUrl_seen (rendered a) \<Longrightarrow>
     isLoadingUrl (loadPdfFromUrl url a) \<and>
     url_calls (loadPdfFromUrl url a) = url_calls a @ [url]"
  "\<not> isLoadingUrl (loadPdfFromUrl_settled url outcome a)"
  by (simp_all add: loadPdfFromUrl_def loadPdfFromUrl_settled_def clear_fileInput_def
      split: option.splits)

subsection \<open>The life of the document handle\<close>

text \<open>
  Claim C8, as stated, has the handle discarded and \<open>totalPages\<close> cleared before any new load
  starts, in both loaders. With the three-page document on display, selecting a PDF file
  starts a load and keeps the handle and \<open>totalPages\<close>; starting a URL load drops the handle
  and keeps \<open>totalPages\<close> at 3.
\<close>

theorem handle_discarded_before_load_counterexample:
  "valid_file (Some report_pdf) \<and>
   pdfDoc (handleFileChange (Some report_pdf) mounted) = Some three_pages \<and>
   pdfDoc (handleFileChange_basic (Some report_pdf) mounted) = Some three_pages \<and>
   totalPages (handleFileChange (Some report_pdf) mounted) = 3 \<and>
   \<not> isLoadingUrl_seen (rendered mounted) \<and>
   pdfDoc (loadPdfFromUrl ''/test.pdf'' mounted) = None \<and>
   totalPages (loadPdfFromUrl ''/test.pdf'' mounted) = 3"
  by (simp add: valid_file_def report_pdf_def handleFileChange_def handleFileChange_basic_def
      loadPdfFromUrl_def clear_fileInput_def mounted_def rerender_def load_succeeded_def
      initial_def three_pages_def)

text \<open>
  Claim C8, amended: the handle is replaced by the new document on each successful load and
  never altered otherwise (after any event it is absent, the one before, or the document the
  event delivers). It is discarded (set to absent, with \<open>totalPages\<close> set to 0) on a load
  failure in the parse/load step, when the library rejects the document, in both loaders.
  Before a new load starts, the URL loader sets the handle to absent and leaves \<open>totalPages\<close>
  as it is; the file loader leaves both the handle and \<open>totalPages\<close> as they are.
\<close>

theorem handle_lifecycle:
  "pdfDoc (reader_onload (Some bytes) (Inr pdf) a) = Some pdf \<and>
   pdfDoc (loadPdfFromUrl_settled url (Inr pdf) a) = Some pdf \<and>
   pdfDoc (reader_onload (Some bytes) (Inl err) a) = None \<and>
   totalPages (reader_onload (Some bytes) (Inl err) a) = 0 \<and>
   pdfDoc (loadPdfFromUrl_settled url (Inl err) a) = None \<and>
   totalPages (loadPdfFromUrl_settled url (Inl err) a) = 0 \<and>
   (\<not> isLoadingUrl_seen (rendered a) \<longrightarrow>
      pdfDoc (loadPdfFromUrl url a) = None \<and>
      totalPages (loadPdfFromUrl url a) = totalPages a) \<and>
   pdfDoc (handleFileChange f a) = pdfDoc a \<and>
   totalPages (handleFileChange f a) = totalPages a \<and>
   pdfDoc (handleFileChange_basic f a) = pdfDoc a \<and>
   totalPages (handleFileChange_basic f a) = totalPages a \<and>
   (pdfDoc (step v e a) = None \<or> pdfDoc (step v e a) = pdfDoc a \<or>
    pdfDoc (step v e a) = delivers e)"
proof -
  have "pdfDoc (step v e a) = None \<or> pdfDoc (step v e a) = pdfDoc a \<or>
        pdfDoc (step v e a) = delivers e"
    by (cases v; cases e rule: delivers.cases)
      (auto simp: handler_defs split: option.splits if_splits)
  moreover
  have "pdfDoc (handleFileChange f a) = pdfDoc a \<and>
        totalPages (handleFileChange f a) = totalPages a \<and>
        pdfDoc (handleFileChange_basic f a) = pdfDoc a \<and>
        totalPages (handleFileChange_basic f a) = totalPages a"
    by (simp add: handleFileChange_def handleFileChange_basic_def clear_fileInput_def alert_def
        split: option.splits)
  moreover
  have "\<not> isLoadingUrl_seen (rendered a) \<longrightarrow>
          pdfDoc (loadPdfFromUrl url a) = None \<and>
          totalPages (loadPdfFromUrl url a) = totalPages a"
    by (simp add: loadPdfFromUrl_def clear_fileInput_def split: option.splits)
  moreover
  have "pdfDoc (reader_onload (Some bytes) (Inl err) a) = None \<and>
        totalPages (reader_onload (Some bytes) (Inl err) a) = 0 \<and>
        pdfDoc (loadPdfFromUrl_settled url (Inl err) a) = None \<and>
        totalPages (loadPdfFromUrl_settled url (Inl err) a) = 0"
    by (simp add: reader_onload_def loadPdfFromUrl_settled_def)
  moreover
  have "pdfDoc (reader_onload (Some bytes) (Inr pdf) a) = Some pdf \<and>
        pdfDoc (loadPdfFromUrl_settled url (Inr pdf) a) = Some pdf"
    by (simp add: reader_onload_def loadPdfFromUrl_settled_def load_succeeded_def)
  ultimately show ?thesis
    by blast
qed

theorem handle_lifecycle_witness:
  "\<not> isLoadingUrl_seen (rendered mounted) \<and> pdfDoc mounted \<noteq> None \<and>
   pdfDoc (loadPdfFromUrl ''/test.pdf'' mounted) = None \<and>
   totalPages (loadPdfFromUrl ''/test.pdf'' mounted) = 3"
  using handle_lifecycle [of "[]" no_pages mounted "''/test.pdf''" "Other ''offline''" None
      Extended Effect]
  by (simp add: mounted_def rerender_def load_succeeded_def initial_def three_pages_def)

subsection \<open>Rounding to binary64\<close>

lemma round_even_cases: "round_even q = \<lfloor>q\<rfloor> \<or> round_even q = \<lfloor>q\<rfloor> + 1"
  by (simp add: round_even_def Let_def)

lemma round_even_lower: "of_int n \<le> q \<Longrightarrow> n \<le> round_even q"
proof -
  assume "of_int n \<le> q"
  then have "n \<le> \<lfloor>q\<rfloor>" by (simp add: le_floor_iff)
  with round_even_cases [of q] show ?thesis by auto
qed

lemma round_even_upper: "q \<le> of_int n \<Longrightarrow> round_even q \<le> n"
proof (cases "q = of_int n")
  case True
  then show ?thesis by (simp add: round_even_def)
next
  case False
  assume "q \<le> of_int n"
  with False have "q < of_int n" by simp
  then have "\<lfloor>q\<rfloor> < n" by (simp add: floor_less_iff)
  with round_even_cases [of q] show ?thesis by auto
qed

lemma round_even_error: "\<bar>of_int (round_even q) - q\<bar> \<le> 1 / 2"
proof -
  have "of_int \<lfloor>q\<rfloor> \<le> q" "q < of_int \<lfloor>q\<rfloor> + 1"
    by linarith+
  then show ?thesis
    by (auto simp: round_even_def Let_def abs_le_iff)
qed

lemma expo_lower:
  assumes "x \<noteq> 0"
  shows "2 powi (expo x) \<le> \<bar>x\<bar>"
proof -
  obtain p q where pq: "quotient_of \<bar>x\<bar> = (p, q)"
    by (cases "quotient_of \<bar>x\<bar>")
  then have q: "0 < q" and x: "\<bar>x\<bar> = of_int p / of_int q"
    by (simp_all add: quotient_of_denom_pos quotient_of_div)
  from assms have "0 < \<bar>x\<bar>" by simp
  with x q have p: "0 < p"
    by (simp add: zero_less_divide_iff)
  define d where "d = bitlen p - bitlen q"
  show ?thesis
  proof (cases "(2::rat) powi d \<le> \<bar>x\<bar>")
    case True
    with pq show ?thesis by (simp add: expo_def d_def)
  next
    case False
    with pq have e: "expo x = d - 1" by (simp add: expo_def d_def)
    from p have bp: "1 \<le> bitlen p" by (simp add: bitlen_alt_def)
    from q have bq: "1 \<le> bitlen q" by (simp add: bitlen_alt_def)
    from bitlen_bounds [OF p] have "(2::int) ^ nat (bitlen p - 1) \<le> p" by simp
    then have "(of_int ((2::int) ^ nat (bitlen p - 1)) :: rat) \<le> of_int p"
      by (simp only: of_int_le_iff)
    then have 1: "(2::rat) ^ nat (bitlen p - 1) \<le> of_int p" by simp
    from bitlen_bounds [OF q] have "q \<le> (2::int) ^ nat (bitlen q)" by simp
    then have "(of_int q :: rat) \<le> of_int ((2::int) ^ nat (bitlen q))"
      by (simp only: of_int_le_iff)
    then have 2: "(of_int q :: rat) \<le> 2 ^ nat (bitlen q)" by simp
    have eq: "d - 1 = (bitlen p - 1) - bitlen q"
      by (simp add: d_def)
    have "(2::rat) powi (d - 1) = 2 powi ((bitlen p - 1) - bitlen q)"
      by (simp only: eq)
    also have "\<dots> = 2 powi (bitlen p - 1) / 2 powi (bitlen q)"
      by (rule power_int_diff) simp
    also have "\<dots> = 2 ^ nat (bitlen p - 1) / 2 ^ nat (bitlen q)"
      using bp bq by (simp add: power_int_def)
    also have "\<dots> \<le> of_int p / of_int q"
      using 1 2 q p by (intro frac_le) simp_all
    finally show ?thesis using e x by simp
  qed
qed


lemma expo_le_1:
  assumes "x \<noteq> 0" and "\<bar>x\<bar> < 4"
  shows "expo x \<le> 1"
proof (rule ccontr)
  assume "\<not> expo x \<le> 1"
  then have "2 \<le> expo x" by simp
  then have "(2::rat) powi 2 \<le> 2 powi (expo x)"
    by (intro power_int_increasing) simp_all
  with expo_lower [OF assms(1)] assms(2) show False by simp
qed

text \<open>Below 4 the binary64 values are multiples of \<open>1 / 2 ^ n\<close> for some \<open>n\<close> from 51 on.\<close>

lemma binary64_grid:
  assumes "x \<noteq> 0" and "\<bar>x\<bar> < 4"
  obtains n where "51 \<le> n" and "binary64 x = of_int (round_even (x * 2 ^ n)) / 2 ^ n"
proof -
  define n where "n = nat (52 - expo x)"
  from expo_le_1 [OF assms] have n: "51 \<le> n" and e: "expo x - 52 = - int n"
    by (simp_all add: n_def)
  have "(2::rat) powi (expo x - 52) = 1 / 2 ^ n"
    by (simp only: e power_int_minus_divide power_int_of_nat)
  with assms(1) have "binary64 x = of_int (round_even (x * 2 ^ n)) / 2 ^ n"
    by (simp add: binary64_def Let_def)
  with n show thesis by (rule that)
qed

lemma binary64_ge_quarter:
  assumes "1 / 4 \<le> x" and "x < 4"
  shows "1 / 4 \<le> binary64 x"
proof -
  from assms have "x \<noteq> 0" "\<bar>x\<bar> < 4" by simp_all
  then obtain n where n: "51 \<le> n" and b: "binary64 x = of_int (round_even (x * 2 ^ n)) / 2 ^ n"
    by (rule binary64_grid)
  define m where "m = n - 2"
  with n have m: "n = m + 2" by simp
  have "(of_int (2 ^ m) :: rat) = 2 ^ n / 4"
    by (simp add: m)
  also have "\<dots> \<le> x * 2 ^ n"
    using assms(1) by (simp add: field_simps)
  finally have "2 ^ m \<le> round_even (x * 2 ^ n)"
    by (rule round_even_lower)
  then have "(of_int (2 ^ m) :: rat) \<le> of_int (round_even (x * 2 ^ n))"
    by (simp only: of_int_le_iff)
  then have "(2::rat) ^ m / 2 ^ n \<le> binary64 x"
    by (simp add: b divide_right_mono)
  then show ?thesis by (simp add: m)
qed

lemma binary64_le_3:
  assumes "0 < x" and "x \<le> 3"
  shows "binary64 x \<le> 3"
proof -
  from assms have "x \<noteq> 0" "\<bar>x\<bar> < 4" by simp_all
  then obtain n where n: "51 \<le> n" and b: "binary64 x = of_int (round_even (x * 2 ^ n)) / 2 ^ n"
    by (rule binary64_grid)
  have "x * 2 ^ n \<le> of_int (3 * 2 ^ n)"
    using assms(2) by simp
  then have "round_even (x * 2 ^ n) \<le> 3 * 2 ^ n"
    by (rule round_even_upper)
  then have "(of_int (round_even (x * 2 ^ n)) :: rat) \<le> of_int (3 * 2 ^ n)"
    by (simp only: of_int_le_iff)
  then have "binary64 x \<le> of_int (3 * 2 ^ n) / 2 ^ n"
    by (simp only: b divide_right_mono zero_le_power zero_le_numeral)
  then show ?thesis by simp
qed

lemma binary64_error:
  assumes "x \<noteq> 0" and "\<bar>x\<bar> < 4"
  shows "\<bar>binary64 x - x\<bar> \<le> 1 / 2 ^ 52"
proof -
  from assms obtain n where n: "51 \<le> n" and b: "binary64 x = of_int (round_even (x * 2 ^ n)) / 2 ^ n"
    by (rule binary64_grid)
  have "binary64 x - x = (of_int (round_even (x * 2 ^ n)) - x * 2 ^ n) / 2 ^ n"
    by (simp add: b field_simps)
  then have "\<bar>binary64 x - x\<bar> = \<bar>of_int (round_even (x * 2 ^ n)) - x * 2 ^ n\<bar> / 2 ^ n"
    by simp
  also have "\<dots> \<le> (1 / 2) / 2 ^ n"
    by (intro divide_right_mono round_even_error) simp
  also have "\<dots> = 1 / 2 ^ (n + 1)"
    by simp
  also have "\<dots> \<le> 1 / 2 ^ 52"
    using n by (intro divide_left_mono power_increasing) simp_all
  finally show ?thesis .
qed

lemma two_tenths: "binary64 (2 / 10) = 3602879701896397 / 2 ^ 54"
  by code_simp

lemma two_tenths_pos: "0 < binary64 (2 / 10)" "binary64 (2 / 10) < 1 / 4"
  unfolding two_tenths by simp_all

lemma two_tenths_error: "\<bar>binary64 (2 / 10) - 2 / 10\<bar> \<le> 1 / 2 ^ 52"
  unfolding two_tenths by simp

subsection \<open>Zoom\<close>

lemma js_add_two_tenths:
  assumes "1 / 4 \<le> s" and "s \<le> 3"
  shows "1 / 4 \<le> js_add s (binary64 (2 / 10))"
    and "\<bar>js_add s (binary64 (2 / 10)) - (s + 2 / 10)\<bar> \<le> 1 / 2 ^ 51"
proof -
  let ?c = "binary64 (2 / 10)"
  from assms two_tenths_pos have x: "1 / 4 \<le> s + ?c" "s + ?c < 4"
    by simp_all
  then show "1 / 4 \<le> js_add s ?c"
    unfolding js_add_def by (rule binary64_ge_quarter)
  from x have "s + ?c \<noteq> 0" "\<bar>s + ?c\<bar> < 4"
    by simp_all
  then have "\<bar>binary64 (s + ?c) - (s + ?c)\<bar> \<le> 1 / 2 ^ 52"
    by (rule binary64_error)
  with two_tenths_error have "\<bar>binary64 (s + ?c) - (s + 2 / 10)\<bar> \<le> 1 / 2 ^ 52 + 1 / 2 ^ 52"
    by linarith
  then show "\<bar>js_add s ?c - (s + 2 / 10)\<bar> \<le> 1 / 2 ^ 51"
    by (simp add: js_add_def)
qed

lemma js_sub_two_tenths:
  assumes "1 / 4 \<le> s" and "s \<le> 3"
  shows "js_sub s (binary64 (2 / 10)) \<le> 3"
    and "\<bar>js_sub s (binary64 (2 / 10)) - (s - 2 / 10)\<bar> \<le> 1 / 2 ^ 51"
proof -
  let ?c = "binary64 (2 / 10)"
  from assms two_tenths_pos have x: "0 < s - ?c" "s - ?c \<le> 3"
    by simp_all
  then show "js_sub s ?c \<le> 3"
    unfolding js_sub_def by (rule binary64_le_3)
  from x have "s - ?c \<noteq> 0" "\<bar>s - ?c\<bar> < 4"
    by simp_all
  then have "\<bar>binary64 (s - ?c) - (s - ?c)\<bar> \<le> 1 / 2 ^ 52"
    by (rule binary64_error)
  with two_tenths_error have "\<bar>binary64 (s - ?c) - (s - 2 / 10)\<bar> \<le> 1 / 2 ^ 52 + 1 / 2 ^ 52"
    by linarith
  then show "\<bar>js_sub s ?c - (s - 2 / 10)\<bar> \<le> 1 / 2 ^ 51"
    by (simp add: js_sub_def)
qed

lemma scale_ok_zoomIn: "scale_ok a \<Longrightarrow> scale_ok (zoomIn a)"
  using js_add_two_tenths(1) [of "scale a"]
  by (simp add: scale_ok_def zoomIn_def Math_min_def)

lemma scale_ok_zoomOut: "scale_ok a \<Longrightarrow> scale_ok (zoomOut a)"
  using js_sub_two_tenths(1) [of "scale a"]
  by (simp add: scale_ok_def zoomOut_def Math_max_def)

lemma scale_ok_step:
  assumes "scale_ok a"
  shows "scale_ok (step v e a)"
proof (cases "e = ZoomIn \<or> e = ZoomOut")
  case True
  with assms show ?thesis
    by (auto simp: scale_ok_zoomIn scale_ok_zoomOut)
next
  case False
  with assms show ?thesis
    by (cases v; cases e rule: delivers.cases)
      (auto simp: scale_ok_def handleFileChange_def handleFileChange_basic_def
        clear_fileInput_def alert_def console_error_def reader_onload_def reader_onerror_def
        loadPdfFromUrl_def loadPdfFromUrl_settled_def load_succeeded_def goToPrevPage_def
        goToNextPage_def rotateClockwise_def rotateCounterClockwise_def split: option.splits)
qed

lemma scale_ok_run: "scale_ok a \<Longrightarrow> scale_ok (run v es a)"
  by (induction es arbitrary: a) (simp_all add: scale_ok_step)

text \<open>
  Claim C3, as stated, has each call inside the interval change the scale by exactly 0.2. The
  scale is a binary64 number and 0.2 is not one: from the initial scale 1 one \<open>zoomIn\<close> gives
  the binary64 value nearest to 1.2, which is below 3, and whose distance from 1 is neither 0.2
  nor the binary64 value of the literal \<open>0.2\<close>.
\<close>

theorem zoom_step_exact_counterexample:
  "scale initial = 1 \<and>
   scale (zoomIn initial) = 5404319552844595 / 2 ^ 52 \<and>
   scale (zoomIn initial) < 3 \<and>
   scale (zoomIn initial) - scale initial \<noteq> 2 / 10 \<and>
   scale (zoomIn initial) - scale initial \<noteq> binary64 (2 / 10)"
  by code_simp

text \<open>
  Claim C3, amended: for every sequence of events, \<open>zoomIn\<close> and \<open>zoomOut\<close> among them, from
  any scale within \<open>[0.25, 3.0]\<close>, the scale remains within \<open>[0.25, 3.0]\<close> after each call. Each
  \<open>zoomIn\<close> sets the scale to the binary64 sum of the scale and 0.2 and each \<open>zoomOut\<close> to their
  binary64 difference, which is within \<open>2\<^sup>-\<^sup>5\<^sup>1\<close> of the scale plus or minus 0.2, except when that
  result is beyond 3.0 or below 0.25, in which case the scale is the boundary value.
\<close>

theorem zoom_bounds:
  assumes "1 / 4 \<le> scale a" and "scale a \<le> 3"
  shows "1 / 4 \<le> scale (run v es a) \<and> scale (run v es a) \<le> 3 \<and>
         (js_add (scale a) (binary64 (2 / 10)) \<le> 3 \<longrightarrow>
            scale (zoomIn a) = js_add (scale a) (binary64 (2 / 10))) \<and>
         (3 < js_add (scale a) (binary64 (2 / 10)) \<longrightarrow> scale (zoomIn a) = 3) \<and>
         (1 / 4 \<le> js_sub (scale a) (binary64 (2 / 10)) \<longrightarrow>
            scale (zoomOut a) = js_sub (scale a) (binary64 (2 / 10))) \<and>
         (js_sub (scale a) (binary64 (2 / 10)) < 1 / 4 \<longrightarrow> scale (zoomOut a) = 1 / 4) \<and>
         \<bar>js_add (scale a) (binary64 (2 / 10)) - (scale a + 2 / 10)\<bar> \<le> 1 / 2 ^ 51 \<and>
         \<bar>js_sub (scale a) (binary64 (2 / 10)) - (scale a - 2 / 10)\<bar> \<le> 1 / 2 ^ 51"
proof -
  from assms have "scale_ok a"
    by (simp add: scale_ok_def)
  then have "scale_ok (run v es a)"
    by (rule scale_ok_run)
  then have "1 / 4 \<le> scale (run v es a) \<and> scale (run v es a) \<le> 3"
    by (simp add: scale_ok_def)
  moreover have "js_add (scale a) (binary64 (2 / 10)) \<le> 3 \<longrightarrow>
      scale (zoomIn a) = js_add (scale a) (binary64 (2 / 10))"
    and "3 < js_add (scale a) (binary64 (2 / 10)) \<longrightarrow> scale (zoomIn a) = 3"
    by (simp_all add: zoomIn_def Math_min_def)
  moreover have "1 / 4 \<le> js_sub (scale a) (binary64 (2 / 10)) \<longrightarrow>
      scale (zoomOut a) = js_sub (scale a) (binary64 (2 / 10))"
    and "js_sub (scale a) (binary64 (2 / 10)) < 1 / 4 \<longrightarrow> scale (zoomOut a) = 1 / 4"
    by (simp_all add: zoomOut_def Math_max_def)
  ultimately show ?thesis
    using js_add_two_tenths(2) [OF assms] js_sub_two_tenths(2) [OF assms] by blast
qed

theorem zoom_bounds_witness:
  "1 / 4 \<le> scale initial \<and> scale initial \<le> 3 \<and>
   scale (run Extended [ZoomIn, ZoomIn, ZoomIn, ZoomIn, ZoomIn] initial)
     = 9007199254740991 / 2 ^ 52 \<and>
   scale (run Basic [ZoomOut, ZoomOut, ZoomOut, ZoomOut] initial) = 1 / 4 \<and>
   scale (zoomIn initial) = js_add 1 (binary64 (2 / 10)) \<and>
   \<bar>scale (zoomIn initial) - (1 + 2 / 10)\<bar> \<le> 1 / 2 ^ 51"
proof -
  have 1: "scale initial = 1"
    by (simp add: initial_def)
  have 2: "scale (run Extended [ZoomIn, ZoomIn, ZoomIn, ZoomIn, ZoomIn] initial)
     = 9007199254740991 / 2 ^ 52"
    by code_simp
  have 3: "scale (run Basic [ZoomOut, ZoomOut, ZoomOut, ZoomOut] initial) = 1 / 4"
    by code_simp
  have 4: "js_add 1 (binary64 (2 / 10)) \<le> 3"
    by code_simp
  from zoom_bounds [of initial Extended "[ZoomIn, ZoomIn, ZoomIn, ZoomIn, ZoomIn]"] 1 2 3 4
  show ?thesis
    by simp
qed

end
